theory Spec2Isabelle
  imports Complex_Main "HOL-Library.AList"
begin

section \<open>Common JavaScript notions\<close>

text \<open>
  A JavaScript object used as a dictionary (\<open>Record<string, V>\<close>) and a \<open>Map<string, V>\<close>
  both keep their entries in insertion order: writing an existing key replaces its value in
  place, writing a new key appends it, deleting removes it. They are modelled as association
  lists with \<open>AList.update\<close> and \<open>AList.delete\<close>, read with \<open>map_of\<close>. Only own properties
  are modelled: a key that names a property inherited from \<open>Object.prototype\<close> (such as
  \<open>__proto__\<close> or \<open>constructor\<close>) is treated like any other key. Strings are byte strings.
  Dates are integers (milliseconds since the epoch), as are the status code and the duration
  that a log entry carries.
\<close>

type_synonym 'v obj = "(string \<times> 'v) list"

text \<open>
  A value of the type \<open>number\<close> where the code tests it: a finite number (the doubles are
  rational numbers; \<open>Number 0\<close> is \<open>+0\<close>), the negative zero, \<open>NaN\<close> and the two infinities.
  In a condition the numbers \<open>0\<close>, \<open>-0\<close> and \<open>NaN\<close> are falsy and every other number is
  truthy.
\<close>

datatype number = Number rat | NegZero | NaN | Infinity | NegInfinity

definition falsy_number :: "number \<Rightarrow> bool" where
  "falsy_number n \<longleftrightarrow> n = Number 0 \<or> n = NegZero \<or> n = NaN"

datatype js_error = TypeError

section \<open>session-engine.ts: data model\<close>

record BrowserFingerprint =
  fp_userAgent :: string
  fp_acceptLanguage :: string
  fp_acceptEncoding :: string
  fp_timezone :: string
  fp_screenResolution :: string
  fp_colorDepth :: number
  fp_platform :: string
  fp_hardwareConcurrency :: number
  fp_deviceMemory :: number
  fp_webGLVendor :: string
  fp_webGLRenderer :: string
  fp_canvas :: string
  fp_webRTC :: bool

text \<open>\<open>Partial<BrowserFingerprint>\<close>: every field may be absent (\<open>undefined\<close>).\<close>

record PartialFingerprint =
  pf_userAgent :: "string option"
  pf_acceptLanguage :: "string option"
  pf_acceptEncoding :: "string option"
  pf_timezone :: "string option"
  pf_screenResolution :: "string option"
  pf_colorDepth :: "number option"
  pf_platform :: "string option"
  pf_hardwareConcurrency :: "number option"
  pf_deviceMemory :: "number option"
  pf_webGLVendor :: "string option"
  pf_webGLRenderer :: "string option"
  pf_canvas :: "string option"
  pf_webRTC :: "bool option"

record RequestLog =
  log_timestamp :: int
  log_method :: string
  log_url :: string
  log_statusCode :: int
  log_duration :: int

record SessionData =
  s_id :: string
  createdAt :: int
  lastAccessedAt :: int
  cookies :: "string obj"
  localStorage :: "string obj"
  sessionStorage :: "string obj"
  browserFingerprint :: BrowserFingerprint
  customProxy :: "string option"
  requestHistory :: "RequestLog list"

text \<open>The private field \<open>sessions\<close> of the engine, a \<open>Map<string, SessionData>\<close>.\<close>

type_synonym sessions = "SessionData obj"

definition MAX_SESSIONS :: nat where
  "MAX_SESSIONS = 100"

definition SESSION_TIMEOUT :: int where
  "SESSION_TIMEOUT = 24 * 60 * 60 * 1000"

section \<open>session-engine.ts: fingerprint generation\<close>

text \<open>
  The draws of \<open>Math.random\<close> are inputs of the model: each index is the value of
  \<open>Math.floor(Math.random() * n)\<close>, which lies in \<open>0..n-1\<close>; \<open>r_canvas i\<close> is the draw of
  the \<open>i\<close>-th round of the canvas loop.
\<close>

record fp_rand =
  r_browser :: nat
  r_timezone :: nat
  r_screen :: nat
  r_colorDepth :: nat
  r_canvas :: "nat \<Rightarrow> nat"

record archetype =
  a_userAgent :: string
  a_platform :: string
  a_hardwareConcurrency :: number
  a_deviceMemory :: number

definition browsers :: "archetype list" where
  "browsers =
    [\<lparr>a_userAgent = ''Mozilla/5.0 (Windows NT 10.0; Win64; x64) AppleWebKit/537.36 (KHTML, like Gecko) Chrome/120.0.0.0 Safari/537.36'',
      a_platform = ''Win32'', a_hardwareConcurrency = Number 8, a_deviceMemory = Number 16\<rparr>,
     \<lparr>a_userAgent = ''Mozilla/5.0 (Macintosh; Intel Mac OS X 10_15_7) AppleWebKit/605.1.15 (KHTML, like Gecko) Version/17.1 Safari/605.1.15'',
      a_platform = ''MacIntel'', a_hardwareConcurrency = Number 8, a_deviceMemory = Number 16\<rparr>,
     \<lparr>a_userAgent = ''Mozilla/5.0 (X11; Linux x86_64) AppleWebKit/537.36 (KHTML, like Gecko) Chrome/120.0.0.0 Safari/537.36'',
      a_platform = ''Linux x86_64'', a_hardwareConcurrency = Number 4,
      a_deviceMemory = Number 8\<rparr>]"

definition screenResolutions :: "string list" where
  "screenResolutions = [''1920x1080'', ''1366x768'', ''1440x900'', ''2560x1440'']"

definition colorDepths :: "number list" where
  "colorDepths = [Number 24, Number 32]"

definition timezones :: "string list" where
  "timezones = [''UTC'', ''Asia/Tokyo'', ''America/New_York'', ''Europe/London'']"

definition canvas_chars :: string where
  "canvas_chars = ''ABCDEFGHIJKLMNOPQRSTUVWXYZabcdefghijklmnopqrstuvwxyz0123456789''"

text \<open>\<open>String.prototype.charAt\<close>: the empty string out of range.\<close>

definition charAt :: "string \<Rightarrow> nat \<Rightarrow> string" where
  "charAt s i = (if i < length s then [s ! i] else [])"

definition generateCanvasFingerprint :: "(nat \<Rightarrow> nat) \<Rightarrow> string" where
  "generateCanvasFingerprint draw = concat (map (\<lambda>i. charAt canvas_chars (draw i)) [0..<32])"

text \<open>
  \<open>custom?.f\<close> is \<open>undefined\<close> when \<open>custom\<close> is. \<open>a || b\<close> yields \<open>b\<close> when \<open>a\<close> is falsy:
  \<open>undefined\<close>, the empty string, a falsy number. \<open>a ?? b\<close> yields \<open>b\<close> only when \<open>a\<close> is
  \<open>undefined\<close>.
\<close>

definition opt_chain :: "'r option \<Rightarrow> ('r \<Rightarrow> 'a option) \<Rightarrow> 'a option" where
  "opt_chain custom f = (case custom of None \<Rightarrow> None | Some c \<Rightarrow> f c)"

definition or_str :: "string option \<Rightarrow> string \<Rightarrow> string" where
  "or_str a b = (case a of None \<Rightarrow> b | Some s \<Rightarrow> if s = [] then b else s)"

definition or_num :: "number option \<Rightarrow> number \<Rightarrow> number" where
  "or_num a b = (case a of None \<Rightarrow> b | Some n \<Rightarrow> if falsy_number n then b else n)"

definition nullish :: "'a option \<Rightarrow> 'a \<Rightarrow> 'a" where
  "nullish a b = (case a of None \<Rightarrow> b | Some x \<Rightarrow> x)"

definition generateBrowserFingerprint ::
  "PartialFingerprint option \<Rightarrow> fp_rand \<Rightarrow> BrowserFingerprint" where
  "generateBrowserFingerprint custom r =
    (let browser = browsers ! r_browser r in
     \<lparr>fp_userAgent = or_str (opt_chain custom pf_userAgent) (a_userAgent browser),
      fp_acceptLanguage = or_str (opt_chain custom pf_acceptLanguage) ''ja-JP,ja;q=0.9'',
      fp_acceptEncoding = or_str (opt_chain custom pf_acceptEncoding) ''gzip, deflate, br'',
      fp_timezone = or_str (opt_chain custom pf_timezone) (timezones ! r_timezone r),
      fp_screenResolution =
        or_str (opt_chain custom pf_screenResolution) (screenResolutions ! r_screen r),
      fp_colorDepth = or_num (opt_chain custom pf_colorDepth) (colorDepths ! r_colorDepth r),
      fp_platform = or_str (opt_chain custom pf_platform) (a_platform browser),
      fp_hardwareConcurrency =
        or_num (opt_chain custom pf_hardwareConcurrency) (a_hardwareConcurrency browser),
      fp_deviceMemory = or_num (opt_chain custom pf_deviceMemory) (a_deviceMemory browser),
      fp_webGLVendor = or_str (opt_chain custom pf_webGLVendor) ''Google Inc.'',
      fp_webGLRenderer =
        or_str (opt_chain custom pf_webGLRenderer) ''ANGLE (Intel HD Graphics)'',
      fp_canvas = or_str (opt_chain custom pf_canvas) (generateCanvasFingerprint (r_canvas r)),
      fp_webRTC = nullish (opt_chain custom pf_webRTC) True\<rparr>)"

section \<open>session-engine.ts: the session store\<close>

text \<open>
  \<open>Array.prototype.reduce\<close> without an initial value starts from the first element and
  throws a \<open>TypeError\<close> on the empty array.
\<close>

definition reduce1 :: "('a \<Rightarrow> 'a \<Rightarrow> 'a) \<Rightarrow> 'a list \<Rightarrow> js_error + 'a" where
  "reduce1 f xs = (case xs of [] \<Rightarrow> Inl TypeError | x # rest \<Rightarrow> Inr (foldl f x rest))"

definition older :: "SessionData \<Rightarrow> SessionData \<Rightarrow> SessionData" where
  "older prev current = (if lastAccessedAt prev < lastAccessedAt current then prev else current)"

text \<open>The first statement of \<open>createSession\<close>: the eviction when the store is full.\<close>

definition evictOldest :: "sessions \<Rightarrow> js_error + sessions" where
  "evictOldest st =
    (if length st \<ge> MAX_SESSIONS then
       (case reduce1 older (map snd st) of
          Inl e \<Rightarrow> Inl e
        | Inr oldestSession \<Rightarrow> Inr (AList.delete (s_id oldestSession) st))
     else Inr st)"

text \<open>
  \<open>createSession\<close>: \<open>sessionId\<close> is the value of \<open>generateSessionId()\<close> (16 random bytes in
  hexadecimal), \<open>t_created\<close> and \<open>t_accessed\<close> are the two readings \<open>new Date()\<close> of the clock.
  The result is the new session and the store after the call.
\<close>

definition createSession ::
  "sessions \<Rightarrow> PartialFingerprint option \<Rightarrow> string \<Rightarrow> fp_rand \<Rightarrow> int \<Rightarrow> int
    \<Rightarrow> js_error + (SessionData \<times> sessions)" where
  "createSession st custom sessionId r t_created t_accessed =
    (case evictOldest st of
       Inl e \<Rightarrow> Inl e
     | Inr st1 \<Rightarrow>
        (let fingerprint = generateBrowserFingerprint custom r;
             session = \<lparr>s_id = sessionId, createdAt = t_created, lastAccessedAt = t_accessed,
                        cookies = [], localStorage = [], sessionStorage = [],
                        browserFingerprint = fingerprint, customProxy = None,
                        requestHistory = []\<rparr>
         in Inr (session, AList.update sessionId session st1)))"

text \<open>
  \<open>getSession\<close>: \<open>t_touch\<close> is the reading \<open>new Date()\<close> stored into \<open>lastAccessedAt\<close>,
  \<open>t_check\<close> the reading \<open>Date.now()\<close> of the staleness test that follows it. The session
  object lives in the map, so the touch changes the store.
\<close>

definition getSession ::
  "sessions \<Rightarrow> string \<Rightarrow> int \<Rightarrow> int \<Rightarrow> SessionData option \<times> sessions" where
  "getSession st sessionId t_touch t_check =
    (case map_of st sessionId of
       None \<Rightarrow> (None, st)
     | Some s \<Rightarrow>
        (let session = s\<lparr>lastAccessedAt := t_touch\<rparr>;
             st1 = AList.update sessionId session st
         in if t_check - lastAccessedAt session > SESSION_TIMEOUT
            then (None, AList.delete sessionId st1)
            else (Some session, st1)))"

text \<open>The cookie key: \<open>domain ? `${domain}:${name}` : name\<close>; the empty domain is falsy.\<close>

definition cookieKey :: "string \<Rightarrow> string option \<Rightarrow> string" where
  "cookieKey name domain =
    (case domain of
       None \<Rightarrow> name
     | Some d \<Rightarrow> if d = [] then name else d @ '':'' @ name)"

definition setCookie ::
  "sessions \<Rightarrow> string \<Rightarrow> string \<Rightarrow> string \<Rightarrow> string option \<Rightarrow> int \<Rightarrow> int \<Rightarrow> bool \<times> sessions" where
  "setCookie st sessionId name val domain t_touch t_check =
    (case getSession st sessionId t_touch t_check of
       (None, st1) \<Rightarrow> (False, st1)
     | (Some session, st1) \<Rightarrow>
        (True, AList.update sessionId
           (session\<lparr>cookies := AList.update (cookieKey name domain) val (cookies session)\<rparr>) st1))"

definition getCookie ::
  "sessions \<Rightarrow> string \<Rightarrow> string \<Rightarrow> string option \<Rightarrow> int \<Rightarrow> int \<Rightarrow> string option \<times> sessions" where
  "getCookie st sessionId name domain t_touch t_check =
    (case getSession st sessionId t_touch t_check of
       (None, st1) \<Rightarrow> (None, st1)
     | (Some session, st1) \<Rightarrow> (map_of (cookies session) (cookieKey name domain), st1))"

definition setLocalStorage ::
  "sessions \<Rightarrow> string \<Rightarrow> string \<Rightarrow> string \<Rightarrow> int \<Rightarrow> int \<Rightarrow> bool \<times> sessions" where
  "setLocalStorage st sessionId key val t_touch t_check =
    (case getSession st sessionId t_touch t_check of
       (None, st1) \<Rightarrow> (False, st1)
     | (Some session, st1) \<Rightarrow>
        (True, AList.update sessionId
           (session\<lparr>localStorage := AList.update key val (localStorage session)\<rparr>) st1))"

definition getLocalStorage ::
  "sessions \<Rightarrow> string \<Rightarrow> string \<Rightarrow> int \<Rightarrow> int \<Rightarrow> string option \<times> sessions" where
  "getLocalStorage st sessionId key t_touch t_check =
    (case getSession st sessionId t_touch t_check of
       (None, st1) \<Rightarrow> (None, st1)
     | (Some session, st1) \<Rightarrow> (map_of (localStorage session) key, st1))"

text \<open>\<open>xs.slice(-n)\<close>: the last \<open>n\<close> elements, all of them when there are fewer.\<close>

definition slice_last :: "nat \<Rightarrow> 'a list \<Rightarrow> 'a list" where
  "slice_last n xs = drop (length xs - n) xs"

text \<open>\<open>logRequest\<close>: \<open>t_log\<close> is the reading \<open>new Date()\<close> of the entry's timestamp.\<close>

definition logRequest ::
  "sessions \<Rightarrow> string \<Rightarrow> string \<Rightarrow> string \<Rightarrow> int \<Rightarrow> int \<Rightarrow> int \<Rightarrow> int \<Rightarrow> int \<Rightarrow> bool \<times> sessions" where
  "logRequest st sessionId method url statusCode duration t_touch t_check t_log =
    (case getSession st sessionId t_touch t_check of
       (None, st1) \<Rightarrow> (False, st1)
     | (Some session, st1) \<Rightarrow>
        (let pushed = requestHistory session @
               [\<lparr>log_timestamp = t_log, log_method = method, log_url = url,
                 log_statusCode = statusCode, log_duration = duration\<rparr>];
             history = (if length pushed > 1000 then slice_last 1000 pushed else pushed)
         in (True, AList.update sessionId (session\<lparr>requestHistory := history\<rparr>) st1)))"

text \<open>\<open>Map.prototype.delete\<close> returns whether the key was present.\<close>

definition deleteSession :: "sessions \<Rightarrow> string \<Rightarrow> bool \<times> sessions" where
  "deleteSession st sessionId = (map_of st sessionId \<noteq> None, AList.delete sessionId st)"

definition clearAllSessions :: "sessions \<Rightarrow> sessions" where
  "clearAllSessions st = []"

record SessionDetails =
  d_id :: string
  d_createdAt :: int
  d_lastAccessedAt :: int
  d_cookieCount :: nat
  d_localStorageCount :: nat
  d_requestCount :: nat
  d_browserFingerprint :: BrowserFingerprint
  d_recentRequests :: "RequestLog list"

definition getSessionDetails ::
  "sessions \<Rightarrow> string \<Rightarrow> int \<Rightarrow> int \<Rightarrow> SessionDetails option \<times> sessions" where
  "getSessionDetails st sessionId t_touch t_check =
    (case getSession st sessionId t_touch t_check of
       (None, st1) \<Rightarrow> (None, st1)
     | (Some session, st1) \<Rightarrow>
        (Some \<lparr>d_id = s_id session, d_createdAt = createdAt session,
               d_lastAccessedAt = lastAccessedAt session,
               d_cookieCount = length (cookies session),
               d_localStorageCount = length (localStorage session),
               d_requestCount = length (requestHistory session),
               d_browserFingerprint = browserFingerprint session,
               d_recentRequests = slice_last 10 (requestHistory session)\<rparr>, st1))"

section \<open>proxy-advanced.ts: header tables\<close>

definition BROWSER_USER_AGENTS :: "string list obj" where
  "BROWSER_USER_AGENTS =
    [(''chrome'',
      [''Mozilla/5.0 (Windows NT 10.0; Win64; x64) AppleWebKit/537.36 (KHTML, like Gecko) Chrome/120.0.0.0 Safari/537.36'',
       ''Mozilla/5.0 (Macintosh; Intel Mac OS X 10_15_7) AppleWebKit/537.36 (KHTML, like Gecko) Chrome/120.0.0.0 Safari/537.36'',
       ''Mozilla/5.0 (X11; Linux x86_64) AppleWebKit/537.36 (KHTML, like Gecko) Chrome/120.0.0.0 Safari/537.36'']),
     (''firefox'',
      [''Mozilla/5.0 (Windows NT 10.0; Win64; x64; rv:121.0) Gecko/20100101 Firefox/121.0'',
       ''Mozilla/5.0 (Macintosh; Intel Mac OS X 10.15; rv:121.0) Gecko/20100101 Firefox/121.0'',
       ''Mozilla/5.0 (X11; Linux x86_64; rv:121.0) Gecko/20100101 Firefox/121.0'']),
     (''safari'',
      [''Mozilla/5.0 (Macintosh; Intel Mac OS X 10_15_7) AppleWebKit/605.1.15 (KHTML, like Gecko) Version/17.1 Safari/605.1.15'',
       ''Mozilla/5.0 (iPhone; CPU iPhone OS 17_1 like Mac OS X) AppleWebKit/605.1.15 (KHTML, like Gecko) Version/17.1 Mobile/15E148 Safari/604.1'']),
     (''edge'',
      [''Mozilla/5.0 (Windows NT 10.0; Win64; x64) AppleWebKit/537.36 (KHTML, like Gecko) Chrome/120.0.0.0 Safari/537.36 Edg/120.0.0.0'',
       ''Mozilla/5.0 (Macintosh; Intel Mac OS X 10_15_7) AppleWebKit/537.36 (KHTML, like Gecko) Chrome/120.0.0.0 Safari/537.36 Edg/120.0.0.0''])]"

definition TRACKING_HEADERS :: "string list" where
  "TRACKING_HEADERS =
    [''x-forwarded-for'', ''x-forwarded-proto'', ''x-forwarded-host'', ''x-real-ip'',
     ''cf-connecting-ip'', ''cf-ray'', ''cf-ipcountry'', ''x-client-ip'', ''x-originating-ip'',
     ''x-cluster-client-ip'', ''x-forwarded-server'', ''x-forwarded-by'',
     ''x-forwarded-for-original'', ''x-original-forwarded-for'']"

definition SECURITY_HEADERS :: "string list" where
  "SECURITY_HEADERS =
    [''content-security-policy'', ''x-frame-options'', ''x-content-type-options'',
     ''x-xss-protection'', ''strict-transport-security'', ''referrer-policy'']"

text \<open>
  \<open>toUpperCase\<close> and \<open>toLowerCase\<close> on byte strings: the ASCII letters change case, every
  other byte stays (header names are ASCII).
\<close>

definition lower_letters :: string where
  "lower_letters = ''abcdefghijklmnopqrstuvwxyz''"

definition upper_letters :: string where
  "upper_letters = ''ABCDEFGHIJKLMNOPQRSTUVWXYZ''"

definition toUpperCase_char :: "char \<Rightarrow> char" where
  "toUpperCase_char c =
    (case map_of (zip lower_letters upper_letters) c of None \<Rightarrow> c | Some u \<Rightarrow> u)"

definition toLowerCase_char :: "char \<Rightarrow> char" where
  "toLowerCase_char c =
    (case map_of (zip upper_letters lower_letters) c of None \<Rightarrow> c | Some l \<Rightarrow> l)"

definition toUpperCase :: "string \<Rightarrow> string" where
  "toUpperCase s = map toUpperCase_char s"

definition toLowerCase :: "string \<Rightarrow> string" where
  "toLowerCase s = map toLowerCase_char s"

section \<open>proxy-advanced.ts: objects on a heap\<close>

text \<open>
  The header transforms copy their argument (\<open>{ ...headers }\<close>) and then assign to and delete
  from the copy. Whether the caller's object changes depends on which object is written,
  so header objects live in a store: an address is an index into the list of allocated
  objects, allocation appends, and a write or delete goes to one address.
\<close>

type_synonym addr = nat

type_synonym 'v heap = "'v obj list"

definition alloc :: "'v heap \<Rightarrow> 'v obj \<Rightarrow> addr \<times> 'v heap" where
  "alloc h ob = (length h, h @ [ob])"

definition heap_set :: "addr \<Rightarrow> 'v heap \<Rightarrow> string \<times> 'v \<Rightarrow> 'v heap" where
  "heap_set p h kv = h[p := AList.update (fst kv) (snd kv) (h ! p)]"

definition heap_delete :: "addr \<Rightarrow> 'v heap \<Rightarrow> string \<Rightarrow> 'v heap" where
  "heap_delete p h k = h[p := AList.delete k (h ! p)]"

record px_rand =
  r_agent :: nat
  r_language :: nat
  r_path :: nat

text \<open>\<open>Object.values(BROWSER_USER_AGENTS).flat()\<close>, indexed by the random draw.\<close>

definition getRandomUserAgent :: "px_rand \<Rightarrow> string" where
  "getRandomUserAgent r = concat (map snd BROWSER_USER_AGENTS) ! r_agent r"

definition languages :: "string list" where
  "languages = [''ja-JP,ja;q=0.9'', ''en-US,en;q=0.9'', ''en-GB,en;q=0.9'']"

text \<open>The values of \<open>sec-ch-ua\<close> and \<open>sec-ch-ua-platform\<close>; \<open>CHR 0x22\<close> is the double quote.\<close>

definition sec_ch_ua :: string where
  "sec_ch_ua =
    [CHR 0x22] @ ''Not_A Brand'' @ [CHR 0x22] @ '';v='' @ [CHR 0x22] @ ''8'' @ [CHR 0x22]
    @ '', '' @ [CHR 0x22] @ ''Chromium'' @ [CHR 0x22] @ '';v='' @ [CHR 0x22] @ ''120''
    @ [CHR 0x22]"

definition sec_ch_ua_platform :: string where
  "sec_ch_ua_platform = [CHR 0x22] @ ''Windows'' @ [CHR 0x22]"

text \<open>The twelve assignments of \<open>spoofHeaders\<close>, in the order of the source.\<close>

definition spoof_assignments :: "px_rand \<Rightarrow> (string \<times> string) list" where
  "spoof_assignments r =
    [(''user-agent'', getRandomUserAgent r),
     (''accept-language'', languages ! r_language r),
     (''accept-encoding'', ''gzip, deflate, br''),
     (''accept'', ''text/html,application/xhtml+xml,application/xml;q=0.9,image/webp,*/*;q=0.8''),
     (''dnt'', ''1''),
     (''sec-fetch-dest'', ''document''),
     (''sec-fetch-mode'', ''navigate''),
     (''sec-fetch-site'', ''none''),
     (''sec-fetch-user'', ''?1''),
     (''sec-ch-ua'', sec_ch_ua),
     (''sec-ch-ua-mobile'', ''?0''),
     (''sec-ch-ua-platform'', sec_ch_ua_platform)]"

definition spoofHeaders :: "string heap \<Rightarrow> addr \<Rightarrow> px_rand \<Rightarrow> addr \<times> string heap" where
  "spoofHeaders h headers r =
    (case alloc h (h ! headers) of
       (spoofed, h0) \<Rightarrow> (spoofed, foldl (heap_set spoofed) h0 (spoof_assignments r)))"

text \<open>Each round of the \<open>forEach\<close> deletes the name as listed and the name in upper case.\<close>

definition delete_both :: "addr \<Rightarrow> 'v heap \<Rightarrow> string \<Rightarrow> 'v heap" where
  "delete_both cleaned h header =
    heap_delete cleaned (heap_delete cleaned h header) (toUpperCase header)"

definition removeTrackingHeaders :: "'v heap \<Rightarrow> addr \<Rightarrow> addr \<times> 'v heap" where
  "removeTrackingHeaders h headers =
    (case alloc h (h ! headers) of
       (cleaned, h0) \<Rightarrow> (cleaned, foldl (delete_both cleaned) h0 TRACKING_HEADERS))"

definition removeSecurityHeaders :: "'v heap \<Rightarrow> addr \<Rightarrow> addr \<times> 'v heap" where
  "removeSecurityHeaders h headers =
    (case alloc h (h ! headers) of
       (cleaned, h0) \<Rightarrow> (cleaned, foldl (delete_both cleaned) h0 SECURITY_HEADERS))"

text \<open>
  The platform's \<open>URL\<close> class is not part of the repository. A parsed URL is a record of
  the properties the code reads and writes, and the constructor \<open>new URL(s)\<close> is a parameter
  \<open>parse\<close> of the functions that call it: \<open>None\<close> stands for the \<open>TypeError\<close> thrown on a
  string that is not an absolute URL. The setters of \<open>pathname\<close> and \<open>search\<close> store their
  argument (\<open>search\<close> with its leading question mark, and empty for the empty query); the
  percent-encoding that the platform applies is not modelled. They leave \<open>origin\<close> and
  \<open>hostname\<close> as they are.
\<close>

record url =
  url_origin :: string
  url_hostname :: string
  url_pathname :: string
  url_search :: string

type_synonym url_parser = "string \<Rightarrow> url option"

definition set_pathname :: "url \<Rightarrow> string \<Rightarrow> url" where
  "set_pathname u p = u\<lparr>url_pathname := p\<rparr>"

definition set_search :: "url \<Rightarrow> string \<Rightarrow> url" where
  "set_search u q =
    u\<lparr>url_search := (if q = [] then [] else if hd q = CHR ''?'' then q else CHR ''?'' # q)\<rparr>"


definition referer_paths :: "string list" where
  "referer_paths = [''/'', ''/search'', ''/page'', ''/index.html'']"

definition generateReferer :: "url_parser \<Rightarrow> string \<Rightarrow> px_rand \<Rightarrow> js_error + string" where
  "generateReferer parse targetUrl r =
    (case parse targetUrl of
       None \<Rightarrow> Inl TypeError
     | Some u \<Rightarrow> Inr (''https://'' @ url_hostname u @ referer_paths ! r_path r))"

definition fullSpoof ::
  "url_parser \<Rightarrow> string heap \<Rightarrow> addr \<Rightarrow> string \<Rightarrow> px_rand \<Rightarrow> (js_error + addr) \<times> string heap" where
  "fullSpoof parse h headers targetUrl r =
    (case spoofHeaders h headers r of (spoofed1, h1) \<Rightarrow>
     case removeTrackingHeaders h1 spoofed1 of (spoofed2, h2) \<Rightarrow>
     case removeSecurityHeaders h2 spoofed2 of (spoofed, h3) \<Rightarrow>
     case generateReferer parse targetUrl r of
       Inl e \<Rightarrow> (Inl e, h3)
     | Inr referer \<Rightarrow>
        (Inr spoofed,
         foldl (heap_set spoofed) h3
           [(''referer'', referer), (''upgrade-insecure-requests'', ''1''),
            (''cache-control'', ''max-age=0''), (''pragma'', ''no-cache'')]))"

section \<open>proxy.ts: the request handler\<close>

record ProxyConfig =
  cfg_targetUrl :: string
  cfg_headers :: "string obj option"
  cfg_userAgent :: "string option"
  cfg_stripHeaders :: "string list option"

text \<open>
  An inbound request: \<open>method\<close> and \<open>url\<close> may be \<open>undefined\<close>, \<open>headers\<close> is a reference to
  the header object.
\<close>

record request =
  req_method :: "string option"
  req_url :: "string option"
  req_headers :: addr

text \<open>What \<open>res.writeHead\<close> and \<open>res.end\<close> put on the response.\<close>

record response =
  res_status :: nat
  res_headers :: "string obj"
  res_body :: string

text \<open>The call \<open>this.proxy.web(req, res, { target, changeOrigin })\<close> handed to http-proxy.\<close>

record proxy_call =
  pc_req :: request
  pc_target :: string
  pc_changeOrigin :: bool

datatype outcome = Responded response | ProxyWeb proxy_call | Threw js_error

text \<open>
  \<open>toLowerCase\<close> of each key comes from the source; a truthy \<open>userAgent\<close> is a non-empty
  string. The entries of \<open>spoofedHeaders\<close> are read once, before the loop that writes
  them into \<open>req.headers\<close>.
\<close>

definition lower_key :: "string \<times> 'v \<Rightarrow> string \<times> 'v" where
  "lower_key kv = (toLowerCase (fst kv), snd kv)"

definition modifyRequest ::
  "url_parser \<Rightarrow> string heap \<Rightarrow> ProxyConfig \<Rightarrow> request \<Rightarrow> px_rand
    \<Rightarrow> (js_error + request) \<times> string heap" where
  "modifyRequest parse h config req r =
    (case fullSpoof parse h (req_headers req) (cfg_targetUrl config) r of
       (Inl e, h1) \<Rightarrow> (Inl e, h1)
     | (Inr spoofedHeaders, h1) \<Rightarrow>
        (let h2 = (case cfg_headers config of
                     None \<Rightarrow> h1
                   | Some hs \<Rightarrow> foldl (heap_set spoofedHeaders) h1 (map lower_key hs));
             h3 = (case cfg_userAgent config of
                     None \<Rightarrow> h2
                   | Some ua \<Rightarrow>
                      if ua = [] then h2 else heap_set spoofedHeaders h2 (''user-agent'', ua));
             h4 = foldl (heap_set (req_headers req)) h3 (map lower_key (h3 ! spoofedHeaders))
         in (Inr req, h4)))"

text \<open>\<open>s.split('?')\<close>: the pieces between the separators, one more than there are separators.\<close>

fun split_on :: "char \<Rightarrow> string \<Rightarrow> string list" where
  "split_on c [] = [[]]"
| "split_on c (x # xs) =
    (if x = c then [] # split_on c xs
     else (case split_on c xs of
             [] \<Rightarrow> [[x]]
           | p # ps \<Rightarrow> (x # p) # ps))"

text \<open>
  The target URL object of \<open>handleRequest\<close>: the parsed configured URL with the inbound
  path and query stored into it. \<open>[path, query] = req.url.split('?')\<close> takes the first two
  pieces.
\<close>

definition buildTargetUrl :: "url \<Rightarrow> string option \<Rightarrow> url" where
  "buildTargetUrl targetUrl requrl =
    (case requrl of
       None \<Rightarrow> set_pathname targetUrl ''/''
     | Some u \<Rightarrow>
        if CHR ''?'' \<in> set u then
          (let parts = split_on (CHR ''?'') u;
               path = parts ! 0;
               query = parts ! 1
           in set_search (set_pathname targetUrl path) query)
        else set_pathname targetUrl (if u = [] then ''/'' else u))"

definition cors_headers :: "string obj" where
  "cors_headers =
    [(''access-control-allow-origin'', ''*''),
     (''access-control-allow-methods'', ''GET, POST, PUT, DELETE, OPTIONS''),
     (''access-control-allow-headers'', ''Content-Type, Authorization'')]"

definition handleRequest ::
  "url_parser \<Rightarrow> string heap \<Rightarrow> ProxyConfig \<Rightarrow> request \<Rightarrow> px_rand \<Rightarrow> outcome \<times> string heap" where
  "handleRequest parse h config req r =
    (if req_method req = Some ''OPTIONS'' then
       (Responded \<lparr>res_status = 200, res_headers = cors_headers, res_body = []\<rparr>, h)
     else
       (case modifyRequest parse h config req r of
          (Inl e, h1) \<Rightarrow> (Threw e, h1)
        | (Inr modifiedReq, h1) \<Rightarrow>
           (case parse (cfg_targetUrl config) of
              None \<Rightarrow> (Threw TypeError, h1)
            | Some parsed \<Rightarrow>
               (let targetUrl = buildTargetUrl parsed (req_url req)
                in (ProxyWeb \<lparr>pc_req = modifiedReq, pc_target = url_origin targetUrl,
                              pc_changeOrigin = True\<rparr>, h1)))))"

section \<open>Sequences of calls and sample values\<close>

text \<open>A call of \<open>logRequest\<close>: its arguments and the three clock readings it takes.\<close>

record log_call =
  lc_method :: string
  lc_url :: string
  lc_statusCode :: int
  lc_duration :: int
  lc_touch :: int
  lc_check :: int
  lc_log :: int

text \<open>The entry that the call appends.\<close>

definition entry_of :: "log_call \<Rightarrow> RequestLog" where
  "entry_of c = \<lparr>log_timestamp = lc_log c, log_method = lc_method c, log_url = lc_url c,
                 log_statusCode = lc_statusCode c, log_duration = lc_duration c\<rparr>"

text \<open>A sequence of \<open>logRequest\<close> calls on one session id: the results and the final store.\<close>

fun logRequests :: "sessions \<Rightarrow> string \<Rightarrow> log_call list \<Rightarrow> bool list \<times> sessions" where
  "logRequests st sessionId [] = ([], st)"
| "logRequests st sessionId (c # cs) =
    (case logRequest st sessionId (lc_method c) (lc_url c) (lc_statusCode c) (lc_duration c)
            (lc_touch c) (lc_check c) (lc_log c) of
       (ok, st1) \<Rightarrow>
         (case logRequests st1 sessionId cs of (oks, st2) \<Rightarrow> (ok # oks, st2)))"

definition sample_draw :: fp_rand where
  "sample_draw =
    \<lparr>r_browser = 0, r_timezone = 1, r_screen = 2, r_colorDepth = 0, r_canvas = (\<lambda>i. i)\<rparr>"

text \<open>The session that \<open>createSession\<close> makes at time \<open>t\<close> without overrides.\<close>

definition sample_session :: "string \<Rightarrow> int \<Rightarrow> SessionData" where
  "sample_session sessionId t =
    \<lparr>s_id = sessionId, createdAt = t, lastAccessedAt = t, cookies = [], localStorage = [],
     sessionStorage = [], browserFingerprint = generateBrowserFingerprint None sample_draw,
     customProxy = None, requestHistory = []\<rparr>"

definition sample_call :: "string \<Rightarrow> int \<Rightarrow> log_call" where
  "sample_call u t =
    \<lparr>lc_method = ''GET'', lc_url = u, lc_statusCode = 200, lc_duration = 12,
     lc_touch = t, lc_check = t, lc_log = t\<rparr>"

text \<open>A session whose history is full: 1000 entries.\<close>

definition full_history_session :: SessionData where
  "full_history_session =
    (sample_session ''a'' 0)\<lparr>requestHistory := replicate 1000 (entry_of (sample_call ''/old'' 1))\<rparr>"

text \<open>A call of \<open>createSession\<close>: the overrides, the random id and draws, the two clock readings.\<close>

record create_call =
  cc_custom :: "PartialFingerprint option"
  cc_sessionId :: string
  cc_rand :: fp_rand
  cc_created :: int
  cc_accessed :: int

definition createSession_call :: "sessions \<Rightarrow> create_call \<Rightarrow> js_error + (SessionData \<times> sessions)" where
  "createSession_call st c =
    createSession st (cc_custom c) (cc_sessionId c) (cc_rand c) (cc_created c) (cc_accessed c)"

text \<open>A sequence of \<open>createSession\<close> calls.\<close>

fun createSessions :: "sessions \<Rightarrow> create_call list \<Rightarrow> js_error + sessions" where
  "createSessions st [] = Inr st"
| "createSessions st (c # cs) =
    (case createSession_call st c of
       Inl e \<Rightarrow> Inl e
     | Inr (session, st1) \<Rightarrow> createSessions st1 cs)"

text \<open>
  The invariant of the map: keys are distinct, each session is filed under its own id, and
  there are at most \<open>MAX_SESSIONS\<close> entries. The empty map of a new engine satisfies it.
\<close>

definition store_ok :: "sessions \<Rightarrow> bool" where
  "store_ok st \<longleftrightarrow>
    distinct (map fst st) \<and> list_all (\<lambda>(k, s). s_id s = k) st \<and> length st \<le> MAX_SESSIONS"

definition sample_id :: "nat \<Rightarrow> string" where
  "sample_id i = replicate (Suc i) (CHR ''a'')"

text \<open>A store holding 100 sessions, last accessed at times 0 to 99.\<close>

definition full_store :: sessions where
  "full_store = map (\<lambda>i. (sample_id i, sample_session (sample_id i) (int i))) [0..<100]"

text \<open>A session of the store whose \<open>lastAccessedAt\<close> is smallest.\<close>

definition least_recent :: "sessions \<Rightarrow> SessionData \<Rightarrow> bool" where
  "least_recent st oldest \<longleftrightarrow>
    (s_id oldest, oldest) \<in> set st
    \<and> list_all (\<lambda>(k, s). lastAccessedAt oldest \<le> lastAccessedAt s) st"

definition sample_create :: create_call where
  "sample_create =
    \<lparr>cc_custom = None, cc_sessionId = ''0123456789abcdef0123456789abcdef'',
     cc_rand = sample_draw, cc_created = 500, cc_accessed = 500\<rparr>"

text \<open>Overrides for fingerprint generation: none, falsy values, truthy values.\<close>

definition no_overrides :: PartialFingerprint where
  "no_overrides =
    \<lparr>pf_userAgent = None, pf_acceptLanguage = None, pf_acceptEncoding = None,
     pf_timezone = None, pf_screenResolution = None, pf_colorDepth = None, pf_platform = None,
     pf_hardwareConcurrency = None, pf_deviceMemory = None, pf_webGLVendor = None,
     pf_webGLRenderer = None, pf_canvas = None, pf_webRTC = None\<rparr>"

definition falsy_overrides :: PartialFingerprint where
  "falsy_overrides =
    no_overrides\<lparr>pf_userAgent := Some [], pf_colorDepth := Some (Number 0),
                  pf_deviceMemory := Some NaN, pf_webRTC := Some False\<rparr>"

definition truthy_overrides :: PartialFingerprint where
  "truthy_overrides =
    no_overrides\<lparr>pf_userAgent := Some ''Custom/1.0'', pf_colorDepth := Some (Number 30),
                  pf_deviceMemory := Some (Number (1 / 2)), pf_webRTC := Some False\<rparr>"

text \<open>Sample draws, headers, URL parser, configuration and requests for the proxy.\<close>

definition sample_px :: px_rand where
  "sample_px = \<lparr>r_agent = 4, r_language = 1, r_path = 2\<rparr>"

definition sample_headers :: "string obj" where
  "sample_headers = [(''host'', ''proxy.local''), (''dnt'', ''0''), (''x-real-ip'', ''203.0.113.7'')]"

definition sample_parse :: url_parser where
  "sample_parse s =
    (if s = ''https://example.com/base?x=1''
     then Some \<lparr>url_origin = ''https://example.com'', url_hostname = ''example.com'',
                url_pathname = ''/base'', url_search = ''?x=1''\<rparr>
     else None)"


definition sample_config :: ProxyConfig where
  "sample_config =
    \<lparr>cfg_targetUrl = ''https://example.com/base?x=1'', cfg_headers = None,
     cfg_userAgent = Some ''Custom/1.0'', cfg_stripHeaders = None\<rparr>"

definition sample_request :: "string \<Rightarrow> string \<Rightarrow> request" where
  "sample_request m u = \<lparr>req_method = Some m, req_url = Some u, req_headers = 0\<rparr>"

section \<open>Properties of the session store\<close>

lemma getSession_unknown:
  "map_of st sessionId = None \<Longrightarrow> getSession st sessionId t1 t2 = (None, st)"
  by (simp add: getSession_def)

lemma delete_unknown:
  "map_of st k = None \<Longrightarrow> AList.delete k st = st"
  by (simp add: map_of_eq_None_iff)

text \<open>
  C2: for a session id present in the store, \<open>getSession\<close> first stores the clock reading
  into \<open>lastAccessedAt\<close> and tests staleness against that fresh value. Whatever the previous
  \<open>lastAccessedAt\<close> was, the test is false, the delete branch is not taken and the touched
  session is returned and kept in the store. The two clock readings of one call are
  \<open>t_touch\<close> and \<open>t_check\<close>; they are taken by consecutive statements, hence no more than
  the 24 hours of \<open>SESSION_TIMEOUT\<close> apart.
\<close>

theorem getSession_timeout_never_fires:
  assumes "map_of st sessionId = Some s"
    and "t_check - t_touch \<le> SESSION_TIMEOUT"
  shows "\<not> (t_check - lastAccessedAt (s\<lparr>lastAccessedAt := t_touch\<rparr>) > SESSION_TIMEOUT)
    \<and> getSession st sessionId t_touch t_check =
        (Some (s\<lparr>lastAccessedAt := t_touch\<rparr>),
         AList.update sessionId (s\<lparr>lastAccessedAt := t_touch\<rparr>) st)
    \<and> map_of (snd (getSession st sessionId t_touch t_check)) sessionId =
        Some (s\<lparr>lastAccessedAt := t_touch\<rparr>)"
  using assms by (simp add: getSession_def Let_def AList.update_conv')

text \<open>
  C7: on a session id that is not in the store, no operation fails and none changes the
  store: the setters and \<open>logRequest\<close> return \<open>false\<close>, the getters \<open>undefined\<close>,
  \<open>getSessionDetails\<close> \<open>null\<close> and \<open>deleteSession\<close> \<open>false\<close>.
\<close>

theorem unknown_session_degrades:
  assumes "map_of st sessionId = None"
  shows "setCookie st sessionId name val domain t1 t2 = (False, st)
    \<and> setLocalStorage st sessionId key val t1 t2 = (False, st)
    \<and> logRequest st sessionId method url statusCode duration t1 t2 t3 = (False, st)
    \<and> getCookie st sessionId name domain t1 t2 = (None, st)
    \<and> getLocalStorage st sessionId key t1 t2 = (None, st)
    \<and> getSessionDetails st sessionId t1 t2 = (None, st)
    \<and> deleteSession st sessionId = (False, st)
    \<and> getSession st sessionId t1 t2 = (None, st)"
  using assms
  by (simp add: setCookie_def setLocalStorage_def logRequest_def getCookie_def
      getLocalStorage_def getSessionDetails_def deleteSession_def getSession_unknown
      delete_unknown)

lemma slice_last_rev: "slice_last n xs = rev (take n (rev xs))"
  by (simp add: slice_last_def rev_take)

lemma slice_last_append: "slice_last n (slice_last n xs @ ys) = slice_last n (xs @ ys)"
  by (simp add: slice_last_rev)

lemma length_slice_last: "length (slice_last n xs) \<le> n"
  by (simp add: slice_last_def)

lemma slice_last_short: "length xs \<le> n \<Longrightarrow> slice_last n xs = xs"
  by (simp add: slice_last_def)

lemma logRequest_present:
  assumes "map_of st sessionId = Some s"
  shows "logRequest st sessionId m u c d t1 t2 t3 =
    (if t2 - t1 > SESSION_TIMEOUT
     then (False, AList.delete sessionId st)
     else (True, AList.update sessionId
        (s\<lparr>lastAccessedAt := t1,
           requestHistory := slice_last 1000 (requestHistory s @
             [\<lparr>log_timestamp = t3, log_method = m, log_url = u,
               log_statusCode = c, log_duration = d\<rparr>])\<rparr>) st))"
  using assms
  by (simp add: logRequest_def getSession_def Let_def slice_last_short AList.delete_update_same)

lemma logRequests_absent:
  "map_of st sessionId = None \<Longrightarrow>
    logRequests st sessionId cs = (replicate (length cs) False, st)"
  by (induction cs) (simp_all add: logRequest_def getSession_unknown)

text \<open>
  C3: take a session whose history holds at most 1000 entries (a new session has none) and
  any sequence of \<open>logRequest\<close> calls on it. Afterwards the history of the session, if it
  is still in the store, holds at most 1000 entries; and when every call of the sequence
  returned \<open>true\<close>, the history is the last 1000 of the old entries followed by the
  appended ones, in the order of the calls.
\<close>

theorem requestHistory_bounded_most_recent:
  assumes "map_of st sessionId = Some s"
    and "length (requestHistory s) \<le> 1000"
  shows "(\<forall>s'. map_of (snd (logRequests st sessionId cs)) sessionId = Some s' \<longrightarrow>
            length (requestHistory s') \<le> 1000)
    \<and> (list_all id (fst (logRequests st sessionId cs)) \<longrightarrow>
         (\<exists>s'. map_of (snd (logRequests st sessionId cs)) sessionId = Some s'
            \<and> requestHistory s' = slice_last 1000 (requestHistory s @ map entry_of cs)))"
  using assms
proof (induction cs arbitrary: st s)
  case Nil
  then show ?case by (simp add: slice_last_short)
next
  case (Cons c cs)
  let ?e = "entry_of c"
  show ?case
  proof (cases "lc_check c - lc_touch c > SESSION_TIMEOUT")
    case True
    then have step: "logRequest st sessionId (lc_method c) (lc_url c) (lc_statusCode c)
        (lc_duration c) (lc_touch c) (lc_check c) (lc_log c) = (False, AList.delete sessionId st)"
      using Cons.prems(1) by (simp add: logRequest_present)
    have gone: "map_of (AList.delete sessionId st) sessionId = None"
      by (simp add: AList.delete_conv')
    show ?thesis
      by (simp add: step logRequests_absent [OF gone] gone)
  next
    case False
    let ?s1 = "s\<lparr>lastAccessedAt := lc_touch c,
                  requestHistory := slice_last 1000 (requestHistory s @ [?e])\<rparr>"
    let ?st1 = "AList.update sessionId ?s1 st"
    from False have step: "logRequest st sessionId (lc_method c) (lc_url c) (lc_statusCode c)
        (lc_duration c) (lc_touch c) (lc_check c) (lc_log c) = (True, ?st1)"
      using Cons.prems(1) by (simp add: logRequest_present entry_of_def)
    have present: "map_of ?st1 sessionId = Some ?s1"
      by (simp add: AList.update_conv')
    have bounded: "length (requestHistory ?s1) \<le> 1000"
      by (simp add: length_slice_last)
    have hist: "slice_last 1000 (requestHistory ?s1 @ map entry_of cs)
        = slice_last 1000 (requestHistory s @ map entry_of (c # cs))"
      by (simp add: slice_last_append)
    from Cons.IH [OF present bounded] hist show ?thesis
      by (auto simp add: step case_prod_beta)
  qed
qed

theorem requestHistory_bounded_most_recent_witness:
  "map_of [(''a'', full_history_session)] ''a'' = Some full_history_session
   \<and> length (requestHistory full_history_session) \<le> 1000
   \<and> list_all id (fst (logRequests [(''a'', full_history_session)] ''a''
        [sample_call ''/x'' 2, sample_call ''/y'' 3]))
   \<and> (\<exists>s'. map_of (snd (logRequests [(''a'', full_history_session)] ''a''
        [sample_call ''/x'' 2, sample_call ''/y'' 3])) ''a'' = Some s'
        \<and> requestHistory s' = replicate 998 (entry_of (sample_call ''/old'' 1))
             @ [entry_of (sample_call ''/x'' 2), entry_of (sample_call ''/y'' 3)])"
proof -
  let ?cs = "[sample_call ''/x'' 2, sample_call ''/y'' 3]"
  have old: "requestHistory full_history_session
      = replicate 1000 (entry_of (sample_call ''/old'' 1))"
    by (simp add: full_history_session_def)
  have present: "map_of [(''a'', full_history_session)] ''a'' = Some full_history_session"
    by simp
  have bounded: "length (requestHistory full_history_session) \<le> 1000"
    by (simp add: old)
  have ok: "list_all id (fst (logRequests [(''a'', full_history_session)] ''a'' ?cs))"
    by (simp add: logRequest_present SESSION_TIMEOUT_def sample_call_def)
  have hist: "slice_last 1000 (requestHistory full_history_session @ map entry_of ?cs)
      = replicate 998 (entry_of (sample_call ''/old'' 1))
          @ [entry_of (sample_call ''/x'' 2), entry_of (sample_call ''/y'' 3)]"
    by (simp add: old slice_last_def)
  show ?thesis
    using requestHistory_bounded_most_recent [OF present bounded, of ?cs] present bounded ok
    unfolding hist by blast
qed

theorem getSession_timeout_never_fires_witness:
  "map_of [(''a'', sample_session ''a'' 0)] ''a'' = Some (sample_session ''a'' 0)
   \<and> (172800000::int) - 172800000 \<le> SESSION_TIMEOUT
   \<and> SESSION_TIMEOUT < 172800000 - lastAccessedAt (sample_session ''a'' 0)
   \<and> getSession [(''a'', sample_session ''a'' 0)] ''a'' 172800000 172800000 =
       (Some ((sample_session ''a'' 0)\<lparr>lastAccessedAt := 172800000\<rparr>),
        [(''a'', (sample_session ''a'' 0)\<lparr>lastAccessedAt := 172800000\<rparr>)])"
  using getSession_timeout_never_fires [of "[(''a'', sample_session ''a'' 0)]" "''a''"
      "sample_session ''a'' 0" 172800000 172800000]
  by (simp add: SESSION_TIMEOUT_def sample_session_def)

theorem unknown_session_degrades_witness:
  "map_of [(''a'', sample_session ''a'' 0)] ''b'' = None
   \<and> setCookie [(''a'', sample_session ''a'' 0)] ''b'' ''sid'' ''abc123'' None 5 5
        = (False, [(''a'', sample_session ''a'' 0)])
   \<and> getCookie [(''a'', sample_session ''a'' 0)] ''b'' ''sid'' None 5 5
        = (None, [(''a'', sample_session ''a'' 0)])
   \<and> deleteSession [(''a'', sample_session ''a'' 0)] ''b''
        = (False, [(''a'', sample_session ''a'' 0)])"
  using unknown_session_degrades [of "[(''a'', sample_session ''a'' 0)]" "''b''"
      "''sid''" "''abc123''" None 5 5]
  by simp

lemma foldl_older_min:
  "foldl older x rest \<in> set (x # rest)
    \<and> (\<forall>s \<in> set (x # rest). lastAccessedAt (foldl older x rest) \<le> lastAccessedAt s)"
proof (induction rest arbitrary: x)
  case Nil
  then show ?case by simp
next
  case (Cons y ys)
  from Cons.IH [of "older x y"] show ?case
    by (auto simp: older_def split: if_splits)
qed

lemma length_delete_present:
  "distinct (map fst al) \<Longrightarrow> k \<in> fst ` set al \<Longrightarrow> Suc (length (AList.delete k al)) = length al"
proof (induction al)
  case Nil
  then show ?case by simp
next
  case (Cons p ps)
  then show ?case
    by (cases "fst p = k") (auto simp: AList.delete_id)
qed

lemma length_update_le: "length (AList.update k v al) \<le> Suc (length al)"
  by (induction al) auto

lemma list_all_delete: "list_all P al \<Longrightarrow> list_all P (AList.delete k al)"
  by (simp add: AList.delete_eq list_all_iff)

lemma list_all_update:
  "list_all P al \<Longrightarrow> P (k, v) \<Longrightarrow> list_all P (AList.update k v al)"
  by (induction al) auto

lemma evictOldest_full:
  assumes "store_ok st" and "MAX_SESSIONS \<le> length st"
  shows "\<exists>oldest. least_recent st oldest
      \<and> evictOldest st = Inr (AList.delete (s_id oldest) st)
      \<and> Suc (length (AList.delete (s_id oldest) st)) = length st"
proof -
  from assms(2) have "st \<noteq> []" by (auto simp: MAX_SESSIONS_def)
  then obtain p ps where st: "st = p # ps" by (cases st) auto
  let ?o = "foldl older (snd p) (map snd ps)"
  have red: "reduce1 older (map snd st) = Inr ?o"
    by (simp add: st reduce1_def)
  from foldl_older_min [of "snd p" "map snd ps"]
  have mem: "?o \<in> snd ` set st"
    and least: "\<forall>s \<in> snd ` set st. lastAccessedAt ?o \<le> lastAccessedAt s"
    by (auto simp: st)
  from mem obtain k where k: "(k, ?o) \<in> set st" by auto
  with assms(1) have "s_id ?o = k" by (auto simp: store_ok_def list_all_iff)
  with k have pair: "(s_id ?o, ?o) \<in> set st" by simp
  then have key: "s_id ?o \<in> fst ` set st" by force
  from assms(1) have d: "distinct (map fst st)" by (simp add: store_ok_def)
  have lr: "least_recent st ?o"
    using pair least by (auto simp: least_recent_def list_all_iff)
  have ev: "evictOldest st = Inr (AList.delete (s_id ?o) st)"
    using assms(2) red by (simp add: evictOldest_def)
  show ?thesis
    using lr ev length_delete_present [OF d key] by (intro exI [of _ ?o]) simp
qed

lemma evictOldest_ok:
  assumes "store_ok st"
  shows "\<exists>st1. evictOldest st = Inr st1 \<and> distinct (map fst st1)
      \<and> list_all (\<lambda>(k, s). s_id s = k) st1 \<and> Suc (length st1) \<le> MAX_SESSIONS"
proof (cases "MAX_SESSIONS \<le> length st")
  case True
  from evictOldest_full [OF assms True] obtain oldest where
    o: "least_recent st oldest
      \<and> evictOldest st = Inr (AList.delete (s_id oldest) st)
      \<and> Suc (length (AList.delete (s_id oldest) st)) = length st" ..
  from assms have "distinct (map fst st)" "list_all (\<lambda>(k, s). s_id s = k) st"
    "length st \<le> MAX_SESSIONS"
    by (simp_all add: store_ok_def)
  then show ?thesis
    using o by (simp add: AList.distinct_delete list_all_delete)
next
  case False
  with assms show ?thesis
    by (simp add: evictOldest_def store_ok_def)
qed

lemma createSession_ok:
  assumes "store_ok st"
  shows "\<exists>session st'. createSession st custom sessionId r t1 t2 = Inr (session, st')
      \<and> store_ok st'"
proof -
  from evictOldest_ok [OF assms] obtain st1 where
    st1: "evictOldest st = Inr st1 \<and> distinct (map fst st1)
      \<and> list_all (\<lambda>(k, s). s_id s = k) st1 \<and> Suc (length st1) \<le> MAX_SESSIONS" ..
  show ?thesis
    using st1 le_trans [OF length_update_le [of sessionId _ st1]]
    by (simp add: createSession_def Let_def store_ok_def AList.distinct_update list_all_update)
qed

lemma createSessions_ok:
  "store_ok st \<Longrightarrow> \<exists>st'. createSessions st cs = Inr st' \<and> store_ok st'"
proof (induction cs arbitrary: st)
  case Nil
  then show ?case by simp
next
  case (Cons c cs)
  from createSession_ok [OF Cons.prems] obtain session st1 where
    "createSession_call st c = Inr (session, st1)" and "store_ok st1"
    unfolding createSession_call_def by blast
  with Cons.IH [of st1] show ?case by simp
qed

lemma store_ok_empty: "store_ok []"
  by (simp add: store_ok_def)

lemma createSession_full:
  assumes ok: "store_ok st" and full: "MAX_SESSIONS \<le> length st"
    and step: "createSession_call st c = Inr (session, st')"
  shows "\<exists>oldest. least_recent st oldest
      \<and> evictOldest st = Inr (AList.delete (s_id oldest) st)
      \<and> map_of (AList.delete (s_id oldest) st) (s_id oldest) = None
      \<and> st' = AList.update (cc_sessionId c) session (AList.delete (s_id oldest) st)"
proof -
  from evictOldest_full [OF ok full] obtain oldest where
    o: "least_recent st oldest
      \<and> evictOldest st = Inr (AList.delete (s_id oldest) st)
      \<and> Suc (length (AList.delete (s_id oldest) st)) = length st" ..
  from step o have "st' = AList.update (cc_sessionId c) session (AList.delete (s_id oldest) st)"
    by (auto simp: createSession_call_def createSession_def Let_def)
  with o show ?thesis
    by (intro exI [of _ oldest]) (simp add: AList.delete_conv')
qed

text \<open>
  C1: start from a store that satisfies the invariant (the empty store does) and run any
  sequence of \<open>createSession\<close> calls. No call fails, the store never holds more than
  \<open>MAX_SESSIONS\<close> sessions, and the same is true after one more call. When that next call
  finds the store full, it deletes a session whose \<open>lastAccessedAt\<close> is smallest and then
  inserts the new session into what is left.
\<close>

theorem createSession_capacity_eviction:
  assumes "store_ok st"
  shows "\<exists>st'. createSessions st cs = Inr st' \<and> store_ok st' \<and> length st' \<le> MAX_SESSIONS
    \<and> (\<forall>c. \<exists>session st''. createSession_call st' c = Inr (session, st'')
          \<and> length st'' \<le> MAX_SESSIONS
          \<and> (MAX_SESSIONS \<le> length st' \<longrightarrow>
               (\<exists>oldest. least_recent st' oldest
                  \<and> evictOldest st' = Inr (AList.delete (s_id oldest) st')
                  \<and> map_of (AList.delete (s_id oldest) st') (s_id oldest) = None
                  \<and> st'' = AList.update (cc_sessionId c) session
                            (AList.delete (s_id oldest) st'))))"
proof -
  from createSessions_ok [OF assms] obtain st' where
    run: "createSessions st cs = Inr st'" and ok: "store_ok st'"
    by blast
  have "\<exists>session st''. createSession_call st' c = Inr (session, st'')
          \<and> length st'' \<le> MAX_SESSIONS
          \<and> (MAX_SESSIONS \<le> length st' \<longrightarrow>
               (\<exists>oldest. least_recent st' oldest
                  \<and> evictOldest st' = Inr (AList.delete (s_id oldest) st')
                  \<and> map_of (AList.delete (s_id oldest) st') (s_id oldest) = None
                  \<and> st'' = AList.update (cc_sessionId c) session
                            (AList.delete (s_id oldest) st')))" for c
  proof -
    from createSession_ok [OF ok] obtain session st'' where
      step: "createSession_call st' c = Inr (session, st'')" and ok'': "store_ok st''"
      unfolding createSession_call_def by blast
    from ok'' have "length st'' \<le> MAX_SESSIONS"
      by (simp add: store_ok_def)
    with step createSession_full [OF ok _ step] show ?thesis
      by blast
  qed
  moreover from ok have "length st' \<le> MAX_SESSIONS"
    by (simp add: store_ok_def)
  ultimately show ?thesis
    using run ok by blast
qed

lemma store_ok_full_store: "store_ok full_store"
proof -
  have "inj sample_id"
    by (rule injI) (auto simp: sample_id_def dest: arg_cong [where f = length])
  then have "distinct (map sample_id [0..<100])"
    by (simp add: distinct_map inj_on_def inj_def)
  moreover have "map fst full_store = map sample_id [0..<100]"
    by (simp add: full_store_def comp_def)
  ultimately have "distinct (map fst full_store)" by simp
  moreover have "list_all (\<lambda>(k, s). s_id s = k) full_store"
    unfolding list_all_iff by (auto simp: full_store_def sample_session_def)
  moreover have "length full_store \<le> MAX_SESSIONS"
    by (simp add: full_store_def MAX_SESSIONS_def)
  ultimately show ?thesis by (simp add: store_ok_def)
qed

theorem createSession_capacity_eviction_witness:
  "store_ok full_store \<and> MAX_SESSIONS \<le> length full_store
   \<and> (\<exists>session st''. createSession_call full_store sample_create = Inr (session, st'')
        \<and> length st'' \<le> MAX_SESSIONS
        \<and> (\<exists>oldest. least_recent full_store oldest
              \<and> evictOldest full_store = Inr (AList.delete (s_id oldest) full_store)
              \<and> map_of (AList.delete (s_id oldest) full_store) (s_id oldest) = None
              \<and> st'' = AList.update (cc_sessionId sample_create) session
                        (AList.delete (s_id oldest) full_store)))"
proof -
  have full: "MAX_SESSIONS \<le> length full_store"
    by (simp add: full_store_def MAX_SESSIONS_def)
  from createSession_capacity_eviction [OF store_ok_full_store, of "[]"] full
  show ?thesis
    using store_ok_full_store by auto
qed

lemma setCookie_present:
  assumes "map_of st sessionId = Some s" and "t2 - t1 \<le> SESSION_TIMEOUT"
  shows "setCookie st sessionId name val domain t1 t2 =
    (True, AList.update sessionId
       (s\<lparr>lastAccessedAt := t1,
          cookies := AList.update (cookieKey name domain) val (cookies s)\<rparr>) st)"
  using assms by (simp add: setCookie_def getSession_def Let_def)

lemma getCookie_present:
  assumes "map_of st sessionId = Some s" and "t2 - t1 \<le> SESSION_TIMEOUT"
  shows "getCookie st sessionId name domain t1 t2 =
    (map_of (cookies s) (cookieKey name domain),
     AList.update sessionId (s\<lparr>lastAccessedAt := t1\<rparr>) st)"
  using assms by (simp add: getCookie_def getSession_def Let_def)

text \<open>
  C10: with a non-empty domain \<open>d\<close>, \<open>setCookie\<close> files the cookie \<open>n\<close> under the key
  \<open>d:n\<close>, which is also the key of the cookie named \<open>d:n\<close> without a domain. So on a
  session of the store, after \<open>setCookie(id, n, v, d)\<close> the call \<open>getCookie(id, 'd:n')\<close>
  returns \<open>v\<close>, and after a further \<open>setCookie(id, 'd:n', w)\<close> the call
  \<open>getCookie(id, n, d)\<close> returns \<open>w\<close>. The clock readings of each call are at most
  \<open>SESSION_TIMEOUT\<close> apart.
\<close>

theorem cookie_keys_alias:
  assumes present: "map_of st sessionId = Some s"
    and domain: "d \<noteq> []"
    and clock: "t2 - t1 \<le> SESSION_TIMEOUT" "t4 - t3 \<le> SESSION_TIMEOUT"
      "t6 - t5 \<le> SESSION_TIMEOUT"
  shows "cookieKey n (Some d) = d @ '':'' @ n
    \<and> cookieKey (d @ '':'' @ n) None = d @ '':'' @ n
    \<and> fst (getCookie (snd (setCookie st sessionId n v (Some d) t1 t2))
            sessionId (d @ '':'' @ n) None t3 t4) = Some v
    \<and> fst (getCookie
            (snd (setCookie (snd (setCookie st sessionId n v (Some d) t1 t2))
                    sessionId (d @ '':'' @ n) w None t3 t4))
            sessionId n (Some d) t5 t6) = Some w"
proof -
  let ?k = "d @ '':'' @ n"
  let ?s1 = "s\<lparr>lastAccessedAt := t1, cookies := AList.update ?k v (cookies s)\<rparr>"
  let ?st1 = "AList.update sessionId ?s1 st"
  let ?s2 = "?s1\<lparr>lastAccessedAt := t3, cookies := AList.update ?k w (cookies ?s1)\<rparr>"
  let ?st2 = "AList.update sessionId ?s2 ?st1"
  have k1: "cookieKey n (Some d) = ?k" and k2: "cookieKey ?k None = ?k"
    using domain by (simp_all add: cookieKey_def)
  have set1: "setCookie st sessionId n v (Some d) t1 t2 = (True, ?st1)"
    using setCookie_present [OF present clock(1), of n v "Some d"] domain
    by (simp add: cookieKey_def)
  have p1: "map_of ?st1 sessionId = Some ?s1"
    by (simp add: AList.update_conv')
  have get1: "fst (getCookie ?st1 sessionId ?k None t3 t4) = Some v"
    using getCookie_present [OF p1 clock(2), of ?k None]
    by (simp add: cookieKey_def AList.update_conv')
  have set2: "setCookie ?st1 sessionId ?k w None t3 t4 = (True, ?st2)"
    using setCookie_present [OF p1 clock(2), of ?k w None] by (simp add: cookieKey_def)
  have p2: "map_of ?st2 sessionId = Some ?s2"
    by (simp add: AList.update_conv')
  have get2: "fst (getCookie ?st2 sessionId n (Some d) t5 t6) = Some w"
    using getCookie_present [OF p2 clock(3), of n "Some d"] domain
    by (simp add: cookieKey_def AList.update_conv')
  show ?thesis
    using k1 k2 get1 get2 by (simp only: set1 set2 snd_conv simp_thms)
qed

theorem cookie_keys_alias_witness:
  "map_of [(''a'', sample_session ''a'' 0)] ''a'' = Some (sample_session ''a'' 0)
   \<and> ''example.com'' \<noteq> []
   \<and> (10::int) - 10 \<le> SESSION_TIMEOUT
   \<and> fst (getCookie (snd (setCookie [(''a'', sample_session ''a'' 0)] ''a''
             ''sid'' ''abc123'' (Some ''example.com'') 10 10))
            ''a'' ''example.com:sid'' None 10 10) = Some ''abc123''
   \<and> fst (getCookie
            (snd (setCookie (snd (setCookie [(''a'', sample_session ''a'' 0)] ''a''
                    ''sid'' ''abc123'' (Some ''example.com'') 10 10))
                    ''a'' ''example.com:sid'' ''changed'' None 10 10))
            ''a'' ''sid'' (Some ''example.com'') 10 10) = Some ''changed''"
  using cookie_keys_alias [of "[(''a'', sample_session ''a'' 0)]" "''a''"
      "sample_session ''a'' 0" "''example.com''" 10 10 10 10 10 10 "''sid''"
      "''abc123''" "''changed''"]
  by (simp add: SESSION_TIMEOUT_def)

section \<open>Properties of fingerprint generation\<close>

lemma or_str_Some: "or_str (Some s) b = (if s = [] then b else s)"
  by (simp add: or_str_def)

lemma or_num_Some: "or_num (Some n) b = (if falsy_number n then b else n)"
  by (simp add: or_num_def)

lemma or_None: "or_str None b = b" "or_num None c = c"
  by (simp_all add: or_str_def or_num_def)

text \<open>
  C4, as stated, fails: an override of the empty string, of 0 or of \<open>NaN\<close> is falsy, \<open>||\<close>
  replaces it by the default, and the supplied value does not appear in the fingerprint.
\<close>

theorem fingerprint_falsy_override_counterexample:
  "pf_userAgent falsy_overrides = Some []
   \<and> fp_userAgent (generateBrowserFingerprint (Some falsy_overrides) sample_draw) \<noteq> []
   \<and> pf_colorDepth falsy_overrides = Some (Number 0)
   \<and> fp_colorDepth (generateBrowserFingerprint (Some falsy_overrides) sample_draw) \<noteq> Number 0
   \<and> pf_deviceMemory falsy_overrides = Some NaN
   \<and> fp_deviceMemory (generateBrowserFingerprint (Some falsy_overrides) sample_draw) \<noteq> NaN"
  by (simp add: falsy_overrides_def no_overrides_def generateBrowserFingerprint_def
      sample_draw_def opt_chain_def or_str_def or_num_def falsy_number_def browsers_def
      colorDepths_def)

text \<open>
  C4, amended: a field present in the overrides appears verbatim in the fingerprint when
  its value is truthy (a non-empty string; a number other than \<open>0\<close>, \<open>-0\<close> and \<open>NaN\<close>,
  fractions and infinities included), and \<open>webRTC\<close> appears verbatim for both booleans,
  \<open>false\<close> included. An override that is the empty string, \<open>0\<close>, \<open>-0\<close> or \<open>NaN\<close> yields the
  value generated when the field is not overridden.
\<close>

theorem fingerprint_truthy_override_verbatim:
  fixes c :: PartialFingerprint and r :: fp_rand
  defines "fp \<equiv> generateBrowserFingerprint (Some c) r"
    and "dflt \<equiv> generateBrowserFingerprint None r"
  shows "(pf_userAgent c = Some s \<longrightarrow> fp_userAgent fp = (if s = [] then fp_userAgent dflt else s))
    \<and> (pf_acceptLanguage c = Some s \<longrightarrow>
          fp_acceptLanguage fp = (if s = [] then fp_acceptLanguage dflt else s))
    \<and> (pf_acceptEncoding c = Some s \<longrightarrow>
          fp_acceptEncoding fp = (if s = [] then fp_acceptEncoding dflt else s))
    \<and> (pf_timezone c = Some s \<longrightarrow> fp_timezone fp = (if s = [] then fp_timezone dflt else s))
    \<and> (pf_screenResolution c = Some s \<longrightarrow>
          fp_screenResolution fp = (if s = [] then fp_screenResolution dflt else s))
    \<and> (pf_colorDepth c = Some n \<longrightarrow>
          fp_colorDepth fp = (if falsy_number n then fp_colorDepth dflt else n))
    \<and> (pf_platform c = Some s \<longrightarrow> fp_platform fp = (if s = [] then fp_platform dflt else s))
    \<and> (pf_hardwareConcurrency c = Some n \<longrightarrow>
          fp_hardwareConcurrency fp =
            (if falsy_number n then fp_hardwareConcurrency dflt else n))
    \<and> (pf_deviceMemory c = Some n \<longrightarrow>
          fp_deviceMemory fp = (if falsy_number n then fp_deviceMemory dflt else n))
    \<and> (pf_webGLVendor c = Some s \<longrightarrow>
          fp_webGLVendor fp = (if s = [] then fp_webGLVendor dflt else s))
    \<and> (pf_webGLRenderer c = Some s \<longrightarrow>
          fp_webGLRenderer fp = (if s = [] then fp_webGLRenderer dflt else s))
    \<and> (pf_canvas c = Some s \<longrightarrow> fp_canvas fp = (if s = [] then fp_canvas dflt else s))
    \<and> (pf_webRTC c = Some b \<longrightarrow> fp_webRTC fp = b)"
  unfolding fp_def dflt_def
  by (simp add: generateBrowserFingerprint_def opt_chain_def or_str_Some or_num_Some or_None
      nullish_def Let_def)

theorem fingerprint_truthy_override_verbatim_witness:
  "pf_userAgent truthy_overrides = Some ''Custom/1.0''
   \<and> fp_userAgent (generateBrowserFingerprint (Some truthy_overrides) sample_draw) = ''Custom/1.0''
   \<and> pf_colorDepth truthy_overrides = Some (Number 30) \<and> \<not> falsy_number (Number 30)
   \<and> fp_colorDepth (generateBrowserFingerprint (Some truthy_overrides) sample_draw) = Number 30
   \<and> pf_deviceMemory truthy_overrides = Some (Number (1 / 2))
   \<and> \<not> falsy_number (Number (1 / 2))
   \<and> fp_deviceMemory (generateBrowserFingerprint (Some truthy_overrides) sample_draw)
       = Number (1 / 2)
   \<and> pf_webRTC truthy_overrides = Some False
   \<and> fp_webRTC (generateBrowserFingerprint (Some truthy_overrides) sample_draw) = False"
  using fingerprint_truthy_override_verbatim
    [of truthy_overrides "''Custom/1.0''" sample_draw "Number 30" False]
    fingerprint_truthy_override_verbatim
    [of truthy_overrides "''Custom/1.0''" sample_draw "Number (1 / 2)" False]
  by (simp add: truthy_overrides_def no_overrides_def falsy_number_def)

section \<open>Properties of the header transforms\<close>

lemma upper_TRACKING_HEADERS:
  "map toUpperCase TRACKING_HEADERS =
    [''X-FORWARDED-FOR'', ''X-FORWARDED-PROTO'', ''X-FORWARDED-HOST'', ''X-REAL-IP'',
     ''CF-CONNECTING-IP'', ''CF-RAY'', ''CF-IPCOUNTRY'', ''X-CLIENT-IP'', ''X-ORIGINATING-IP'',
     ''X-CLUSTER-CLIENT-IP'', ''X-FORWARDED-SERVER'', ''X-FORWARDED-BY'',
     ''X-FORWARDED-FOR-ORIGINAL'', ''X-ORIGINAL-FORWARDED-FOR'']"
  by (simp add: TRACKING_HEADERS_def toUpperCase_def toUpperCase_char_def lower_letters_def
      upper_letters_def)

lemma upper_SECURITY_HEADERS:
  "map toUpperCase SECURITY_HEADERS =
    [''CONTENT-SECURITY-POLICY'', ''X-FRAME-OPTIONS'', ''X-CONTENT-TYPE-OPTIONS'',
     ''X-XSS-PROTECTION'', ''STRICT-TRANSPORT-SECURITY'', ''REFERRER-POLICY'']"
  by (simp add: SECURITY_HEADERS_def toUpperCase_def toUpperCase_char_def lower_letters_def
      upper_letters_def)

lemma foldl_delete_both:
  "p < length h \<Longrightarrow>
    foldl (delete_both p) h hs =
      h[p := filter (\<lambda>kv. fst kv \<notin> set (hs @ map toUpperCase hs)) (h ! p)]"
proof (induction hs arbitrary: h)
  case Nil
  then show ?case by simp
next
  case (Cons x xs)
  have step: "delete_both p h x =
      h[p := filter (\<lambda>kv. fst kv \<noteq> x \<and> fst kv \<noteq> toUpperCase x) (h ! p)]"
    using Cons.prems by (simp add: delete_both_def heap_delete_def AList.delete_eq case_prod_beta neq_commute)
  have "p < length (delete_both p h x)"
    using Cons.prems by (simp add: step)
  from Cons.IH [OF this] show ?case
    using Cons.prems by (simp add: step conj_ac cong: filter_cong)
qed

lemma removeTrackingHeaders_eq:
  "removeTrackingHeaders h headers =
    (length h, h @ [filter (\<lambda>kv. fst kv \<notin> set (TRACKING_HEADERS @ map toUpperCase TRACKING_HEADERS))
                      (h ! headers)])"
  by (simp add: removeTrackingHeaders_def alloc_def foldl_delete_both)

lemma removeSecurityHeaders_eq:
  "removeSecurityHeaders h headers =
    (length h, h @ [filter (\<lambda>kv. fst kv \<notin> set (SECURITY_HEADERS @ map toUpperCase SECURITY_HEADERS))
                      (h ! headers)])"
  by (simp add: removeSecurityHeaders_def alloc_def foldl_delete_both)

text \<open>
  C5: \<open>removeTrackingHeaders\<close> and \<open>removeSecurityHeaders\<close> delete each listed name as
  written (lower case) and in upper case, as the two lemmas above say, and no other
  spelling. A key in mixed case such as \<open>X-Forwarded-For\<close> or \<open>Content-Security-Policy\<close>
  is still in the result.
\<close>

theorem remove_headers_mixed_case_kept:
  "removeTrackingHeaders [[(''X-Forwarded-For'', ''203.0.113.7'')]] 0
     = (1, [[(''X-Forwarded-For'', ''203.0.113.7'')], [(''X-Forwarded-For'', ''203.0.113.7'')]])
   \<and> removeSecurityHeaders [[(''Content-Security-Policy'', ''default-src *'')]] 0
     = (1, [[(''Content-Security-Policy'', ''default-src *'')],
            [(''Content-Security-Policy'', ''default-src *'')]])"
proof -
  have "''X-Forwarded-For'' \<notin> set (TRACKING_HEADERS @ map toUpperCase TRACKING_HEADERS)"
    unfolding upper_TRACKING_HEADERS by (simp add: TRACKING_HEADERS_def)
  moreover
  have "''Content-Security-Policy'' \<notin> set (SECURITY_HEADERS @ map toUpperCase SECURITY_HEADERS)"
    unfolding upper_SECURITY_HEADERS by (simp add: SECURITY_HEADERS_def)
  ultimately show ?thesis
    by (simp add: removeTrackingHeaders_eq removeSecurityHeaders_eq)
qed

lemma heap_set_props:
  assumes "p < length h"
  shows "length (heap_set p h kv) = length h"
    and "heap_set p h kv ! p = AList.update (fst kv) (snd kv) (h ! p)"
    and "q \<noteq> p \<Longrightarrow> heap_set p h kv ! q = h ! q"
  using assms by (simp_all add: heap_set_def)

lemma foldl_heap_set:
  assumes "p < length h"
  shows "length (foldl (heap_set p) h kvs) = length h
    \<and> (\<forall>q. q \<noteq> p \<longrightarrow> foldl (heap_set p) h kvs ! q = h ! q)
    \<and> map_of (foldl (heap_set p) h kvs ! p) = map_of (h ! p) ++ map_of (rev kvs)"
  using assms
proof (induction kvs arbitrary: h)
  case Nil
  then show ?case by simp
next
  case (Cons kv kvs)
  have len: "p < length (heap_set p h kv)"
    using Cons.prems by (simp add: heap_set_props)
  have "map_of (heap_set p h kv ! p) ++ map_of (rev kvs)
      = map_of (h ! p) ++ map_of (rev (kv # kvs))"
    using Cons.prems
    by (cases kv) (simp add: heap_set_props AList.update_conv' map_add_upd_left [symmetric]
        del: map_add_upd_left)
  with Cons.IH [OF len] Cons.prems show ?case
    by (simp add: heap_set_props)
qed

text \<open>
  C9: \<open>spoofHeaders\<close> returns a new object: its address differs from the argument's, and
  the argument and every other object of the heap are the same after the call as before.
  In the new object the twelve spoofed keys hold the spoofed values and every other key
  holds what the argument holds.
\<close>

theorem spoofHeaders_frame:
  assumes "headers < length h"
  shows "\<exists>spoofed h'. spoofHeaders h headers r = (spoofed, h')
    \<and> spoofed \<noteq> headers
    \<and> length h' = Suc (length h)
    \<and> (\<forall>q < length h. h' ! q = h ! q)
    \<and> h' ! headers = h ! headers
    \<and> map_of (h' ! spoofed) ''user-agent'' = Some (getRandomUserAgent r)
    \<and> map_of (h' ! spoofed) ''accept-language'' = Some (languages ! r_language r)
    \<and> map_of (h' ! spoofed) ''accept-encoding'' = Some ''gzip, deflate, br''
    \<and> map_of (h' ! spoofed) ''accept''
        = Some ''text/html,application/xhtml+xml,application/xml;q=0.9,image/webp,*/*;q=0.8''
    \<and> map_of (h' ! spoofed) ''dnt'' = Some ''1''
    \<and> map_of (h' ! spoofed) ''sec-fetch-dest'' = Some ''document''
    \<and> map_of (h' ! spoofed) ''sec-fetch-mode'' = Some ''navigate''
    \<and> map_of (h' ! spoofed) ''sec-fetch-site'' = Some ''none''
    \<and> map_of (h' ! spoofed) ''sec-fetch-user'' = Some ''?1''
    \<and> map_of (h' ! spoofed) ''sec-ch-ua'' = Some sec_ch_ua
    \<and> map_of (h' ! spoofed) ''sec-ch-ua-mobile'' = Some ''?0''
    \<and> map_of (h' ! spoofed) ''sec-ch-ua-platform'' = Some sec_ch_ua_platform
    \<and> (\<forall>k. k \<notin> fst ` set (spoof_assignments r) \<longrightarrow>
          map_of (h' ! spoofed) k = map_of (h ! headers) k)"
proof -
  let ?p = "length h"
  let ?h0 = "h @ [h ! headers]"
  let ?h' = "foldl (heap_set ?p) ?h0 (spoof_assignments r)"
  have run: "spoofHeaders h headers r = (?p, ?h')"
    by (simp add: spoofHeaders_def alloc_def)
  have p: "?p < length ?h0" by simp
  note F = foldl_heap_set [OF p, of "spoof_assignments r"]
  from F have len: "length ?h' = Suc (length h)" by simp
  from F have other: "\<forall>q < length h. ?h' ! q = h ! q"
    by (auto simp: nth_append)
  from F have m: "map_of (?h' ! ?p) = map_of (h ! headers) ++ map_of (rev (spoof_assignments r))"
    by simp
  have keep: "\<forall>k. k \<notin> fst ` set (spoof_assignments r) \<longrightarrow>
      map_of (?h' ! ?p) k = map_of (h ! headers) k"
  proof (intro allI impI)
    fix k assume "k \<notin> fst ` set (spoof_assignments r)"
    then have "map_of (rev (spoof_assignments r)) k = None"
      by (simp add: map_of_eq_None_iff)
    then show "map_of (?h' ! ?p) k = map_of (h ! headers) k"
      by (simp add: m map_add_def)
  qed
  have vals: "map_of (?h' ! ?p) ''user-agent'' = Some (getRandomUserAgent r)"
    "map_of (?h' ! ?p) ''accept-language'' = Some (languages ! r_language r)"
    "map_of (?h' ! ?p) ''accept-encoding'' = Some ''gzip, deflate, br''"
    "map_of (?h' ! ?p) ''accept''
        = Some ''text/html,application/xhtml+xml,application/xml;q=0.9,image/webp,*/*;q=0.8''"
    "map_of (?h' ! ?p) ''dnt'' = Some ''1''"
    "map_of (?h' ! ?p) ''sec-fetch-dest'' = Some ''document''"
    "map_of (?h' ! ?p) ''sec-fetch-mode'' = Some ''navigate''"
    "map_of (?h' ! ?p) ''sec-fetch-site'' = Some ''none''"
    "map_of (?h' ! ?p) ''sec-fetch-user'' = Some ''?1''"
    "map_of (?h' ! ?p) ''sec-ch-ua'' = Some sec_ch_ua"
    "map_of (?h' ! ?p) ''sec-ch-ua-mobile'' = Some ''?0''"
    "map_of (?h' ! ?p) ''sec-ch-ua-platform'' = Some sec_ch_ua_platform"
    unfolding m by (simp_all add: spoof_assignments_def map_add_def)
  from assms have ne: "?p \<noteq> headers" by simp
  from other assms have same: "?h' ! headers = h ! headers" by simp
  show ?thesis
    using run ne len other same vals keep by blast
qed

theorem spoofHeaders_frame_witness:
  "(0::nat) < length [sample_headers]
   \<and> (\<exists>spoofed h'. spoofHeaders [sample_headers] 0 sample_px = (spoofed, h')
        \<and> spoofed \<noteq> 0
        \<and> h' ! 0 = sample_headers
        \<and> map_of (h' ! 0) ''dnt'' = Some ''0''
        \<and> map_of (h' ! spoofed) ''dnt'' = Some ''1''
        \<and> map_of (h' ! spoofed) ''host'' = Some ''proxy.local'')"
proof -
  have valid: "(0::nat) < length [sample_headers]" by simp
  have "''host'' \<notin> fst ` set (spoof_assignments sample_px)"
    by (simp add: spoof_assignments_def)
  with spoofHeaders_frame [OF valid, of sample_px] valid show ?thesis
    by (auto simp: sample_headers_def)
qed

section \<open>Properties of the request handler\<close>

text \<open>
  C6: for a request whose method is \<open>OPTIONS\<close>, \<open>handleRequest\<close> answers with status 200,
  exactly the three CORS headers and an empty body, changes no header object, and makes no
  call to the upstream proxy.
\<close>

theorem options_short_circuit:
  assumes "req_method req = Some ''OPTIONS''"
  shows "handleRequest parse h config req r =
      (Responded \<lparr>res_status = 200,
                  res_headers =
                    [(''access-control-allow-origin'', ''*''),
                     (''access-control-allow-methods'', ''GET, POST, PUT, DELETE, OPTIONS''),
                     (''access-control-allow-headers'', ''Content-Type, Authorization'')],
                  res_body = []\<rparr>, h)
    \<and> (\<forall>call. fst (handleRequest parse h config req r) \<noteq> ProxyWeb call)"
  using assms by (simp add: handleRequest_def cors_headers_def)

theorem options_short_circuit_witness:
  "req_method (sample_request ''OPTIONS'' ''/proxy'') = Some ''OPTIONS''
   \<and> handleRequest sample_parse [sample_headers] sample_config
        (sample_request ''OPTIONS'' ''/proxy'') sample_px =
      (Responded \<lparr>res_status = 200,
                  res_headers =
                    [(''access-control-allow-origin'', ''*''),
                     (''access-control-allow-methods'', ''GET, POST, PUT, DELETE, OPTIONS''),
                     (''access-control-allow-headers'', ''Content-Type, Authorization'')],
                  res_body = []\<rparr>, [sample_headers])"
  using options_short_circuit [of "sample_request ''OPTIONS'' ''/proxy''" sample_parse
      "[sample_headers]" sample_config sample_px]
  by (simp add: sample_request_def)





text \<open>
  The URL that \<open>handleRequest\<close> builds as the destination (\<open>targetUrl\<close>, the one its log line
  names after the arrow): without a question mark in the inbound URL only the path is
  replaced; with one, the path is the piece before the first question mark and the query
  the piece after it, up to the second question mark if there is one.
\<close>

lemma split_on_without: "c \<notin> set s \<Longrightarrow> split_on c s = [s]"
  by (induction s) auto

lemma split_on_first: "c \<notin> set p \<Longrightarrow> split_on c (p @ c # rest) = p # split_on c rest"
  by (induction p) auto

lemma buildTargetUrl_without_query:
  "CHR ''?'' \<notin> set requrl \<Longrightarrow>
    buildTargetUrl u (Some requrl) = set_pathname u (if requrl = [] then ''/'' else requrl)"
  by (simp add: buildTargetUrl_def)

lemma buildTargetUrl_one_query:
  assumes "CHR ''?'' \<notin> set path" and "CHR ''?'' \<notin> set query"
  shows "buildTargetUrl u (Some (path @ CHR ''?'' # query)) =
    set_search (set_pathname u path) query"
  using assms by (simp add: buildTargetUrl_def split_on_first split_on_without)

lemma buildTargetUrl_more_queries:
  assumes "CHR ''?'' \<notin> set path" and "CHR ''?'' \<notin> set query"
  shows "buildTargetUrl u (Some (path @ CHR ''?'' # query @ CHR ''?'' # rest)) =
    set_search (set_pathname u path) query"
  using assms by (simp add: buildTargetUrl_def split_on_first)


end
